theory Spec2Isabelle
  imports Main "HOL-Library.Sublist"
begin

section \<open>JavaScript values\<close>

text \<open>
  Request bodies, response bodies and outbound payloads are JSON values. A number is an
  integer here (the handlers only test the type of a body value and only produce integer
  numbers); \<open>JDate t\<close> is a \<open>Date\<close> object with epoch time \<open>t\<close> as the JSON serialiser
  receives it. A string is a list of characters, each standing for one UTF-16 code unit,
  so that \<open>length\<close> is \<open>String.length\<close> and \<open>take n\<close> is \<open>substring(0, n)\<close>.
\<close>

datatype json =
    JNull
  | JBool bool
  | JNum int
  | JStr string
  | JDate int
  | JArr "json list"
  | JObj "(string \<times> json) list"

text \<open>Property read \<open>obj.k\<close> on a parsed JSON object: \<open>None\<close> is \<open>undefined\<close>.\<close>

fun field :: "json \<Rightarrow> string \<Rightarrow> json option" where
  "field (JObj kvs) k = map_of kvs k"
| "field _ k = None"

text \<open>\<open>!v\<close> for a property that was read from a JSON body.\<close>

fun falsy :: "json option \<Rightarrow> bool" where
  "falsy None = True"
| "falsy (Some JNull) = True"
| "falsy (Some (JBool b)) = (\<not> b)"
| "falsy (Some (JNum n)) = (n = 0)"
| "falsy (Some (JStr s)) = (s = [])"
| "falsy (Some _) = False"

fun typeof_string :: "json option \<Rightarrow> bool" where
  "typeof_string (Some (JStr s)) = True"
| "typeof_string _ = False"

text \<open>The string that a value is once \<open>typeof v === 'string'\<close> has been checked.\<close>

fun stringOf :: "json option \<Rightarrow> string" where
  "stringOf (Some (JStr s)) = s"
| "stringOf _ = []"

fun typeof_object :: "json \<Rightarrow> bool" where
  "typeof_object JNull = True"
| "typeof_object (JArr xs) = True"
| "typeof_object (JObj kvs) = True"
| "typeof_object (JDate t) = True"
| "typeof_object _ = False"

section \<open>Strings\<close>

text \<open>
  \<open>toLowerCase\<close> and \<open>toUpperCase\<close> on the letters of ASCII, which is what the labels of the
  status enumeration are made of; every other character is left as it is.
\<close>

definition upperLetters :: string where
  "upperLetters = ''ABCDEFGHIJKLMNOPQRSTUVWXYZ''"

definition lowerLetters :: string where
  "lowerLetters = ''abcdefghijklmnopqrstuvwxyz''"

definition toLowerCase :: "string \<Rightarrow> string" where
  "toLowerCase s =
     map (\<lambda>c. case map_of (zip upperLetters lowerLetters) c of Some d \<Rightarrow> d | None \<Rightarrow> c) s"

definition toUpperCase :: "string \<Rightarrow> string" where
  "toUpperCase s =
     map (\<lambda>c. case map_of (zip lowerLetters upperLetters) c of Some d \<Rightarrow> d | None \<Rightarrow> c) s"

text \<open>\<open>s.includes(t)\<close>: \<open>t\<close> occurs in \<open>s\<close> as a contiguous run.\<close>

fun string_includes :: "string \<Rightarrow> string \<Rightarrow> bool" where
  "string_includes [] t = (t = [])"
| "string_includes (c # cs) t = (prefix t (c # cs) \<or> string_includes cs t)"

text \<open>Template-literal rendering of an integer, \<open>`${n}`\<close>.\<close>

definition digitChar :: "nat \<Rightarrow> char" where
  "digitChar d = ''0123456789'' ! d"

function natToString :: "nat \<Rightarrow> string" where
  "natToString n =
     (if n < 10 then [digitChar n] else natToString (n div 10) @ [digitChar (n mod 10)])"
  by pat_completeness auto
termination
  by (relation "measure id") auto

declare natToString.simps [simp del]

definition numberToString :: "int \<Rightarrow> string" where
  "numberToString i = (if i < 0 then CHR ''-'' # natToString (nat (- i)) else natToString (nat i))"

subsection \<open>parseInt(s, 10)\<close>

text \<open>
  Leading white space is skipped, one sign is read, and the longest run of decimal digits
  that follows is the value; with no digit there the result is \<open>NaN\<close>, here \<open>None\<close>.
  The value is an exact integer (a JavaScript number is exact up to \<open>2 ^ 53\<close>).
\<close>

definition isWhiteSpace :: "char \<Rightarrow> bool" where
  "isWhiteSpace c = (c \<in> set [CHR 0x09, CHR 0x0A, CHR 0x0B, CHR 0x0C, CHR 0x0D, CHR 0x20, CHR 0xA0])"

definition digitValue :: "char \<Rightarrow> nat option" where
  "digitValue c = map_of (zip ''0123456789'' [0, 1, 2, 3, 4, 5, 6, 7, 8, 9]) c"

fun digitsPrefix :: "string \<Rightarrow> nat list" where
  "digitsPrefix [] = []"
| "digitsPrefix (c # cs) = (case digitValue c of None \<Rightarrow> [] | Some d \<Rightarrow> d # digitsPrefix cs)"

fun stripSign :: "string \<Rightarrow> bool \<times> string" where
  "stripSign [] = (False, [])"
| "stripSign (c # cs) =
     (if c = CHR ''-'' then (True, cs) else if c = CHR ''+'' then (False, cs) else (False, c # cs))"

definition parseInt :: "string \<Rightarrow> int option" where
  "parseInt s =
     (let (neg, u) = stripSign (dropWhile isWhiteSpace s);
          ds = digitsPrefix u;
          n = int (foldl (\<lambda>a d. 10 * a + d) 0 ds)
      in if ds = [] then None else Some (if neg then - n else n))"

text \<open>\<open>parseInt(s, 10) || d\<close>: \<open>NaN\<close> and zero are falsy.\<close>

definition parseIntOr :: "string \<Rightarrow> int \<Rightarrow> int" where
  "parseIntOr s d = (case parseInt s of None \<Rightarrow> d | Some n \<Rightarrow> if n = 0 then d else n)"

section \<open>Data model\<close>

text \<open>
  The tables of the migration: \<open>posts\<close> (a serial identifier, the status enumeration and
  two nullable time stamps) and \<open>settings\<close> (a unique key). Times are epoch times.
\<close>

datatype PostStatus = PENDING | APPROVED | REJECTED | POSTED

fun statusName :: "PostStatus \<Rightarrow> string" where
  "statusName PENDING = ''PENDING''"
| "statusName APPROVED = ''APPROVED''"
| "statusName REJECTED = ''REJECTED''"
| "statusName POSTED = ''POSTED''"

definition parseStatus :: "string \<Rightarrow> PostStatus option" where
  "parseStatus s =
     map_of [(''PENDING'', PENDING), (''APPROVED'', APPROVED),
             (''REJECTED'', REJECTED), (''POSTED'', POSTED)] s"

record post =
  id' :: int
  content :: string
  source :: "string option"
  status :: PostStatus
  n8nCallbackUrl :: string
  createdAt :: int
  approvedAt :: "int option"
  postedAt :: "int option"

record setting =
  skey :: string
  svalue :: string
  updatedAt :: int

text \<open>\<open>postSeq\<close> is the next value of the serial sequence of \<open>posts.id\<close>.\<close>

record database =
  posts :: "post list"
  postSeq :: int
  settings :: "setting list"

definition emptyDatabase :: database where
  "emptyDatabase = \<lparr>posts = [], postSeq = 1, settings = []\<rparr>"

section \<open>The persistence client\<close>

text \<open>
  The operations of the database client that the handlers call, on the tables above. A
  call the client rejects (an argument outside the column's type, a negative \<open>skip\<close>, an
  update of a missing row) is \<open>Inl\<close>; every handler turns it into its 500 response.
  Identifiers are unbounded integers: the width of the \<open>id\<close> column is not modelled.
\<close>

datatype prismaError = ValidationError | ValueTooLong | RecordNotFound

text \<open>
  \<open>create\<close> with \<open>data = {content, source, n8nCallbackUrl, status: 'PENDING'}\<close>. The
  \<open>source\<close> passed is \<open>source || null\<close> of the request, any JSON value: the column takes a
  string of at most 255 characters, the callback column one of at most 500.
\<close>

definition post_create ::
  "int \<Rightarrow> string \<Rightarrow> json option \<Rightarrow> string \<Rightarrow> database \<Rightarrow> prismaError + (post \<times> database)" where
  "post_create t c src cb db =
     (if \<not> falsy src \<and> \<not> typeof_string src then Inl ValidationError
      else
        let s = (case src of Some (JStr x) \<Rightarrow> (if x = [] then None else Some x) | _ \<Rightarrow> None) in
        if (case s of Some x \<Rightarrow> length x > 255 | None \<Rightarrow> False) \<or> length cb > 500
        then Inl ValueTooLong
        else
          let p = \<lparr>id' = postSeq db, content = c, source = s, status = PENDING,
                   n8nCallbackUrl = cb, createdAt = t, approvedAt = None, postedAt = None\<rparr>
          in Inr (p, db\<lparr>posts := posts db @ [p], postSeq := postSeq db + 1\<rparr>))"

definition post_findUnique :: "int \<Rightarrow> database \<Rightarrow> post option" where
  "post_findUnique i db = find (\<lambda>p. id' p = i) (posts db)"

definition post_update ::
  "int \<Rightarrow> (post \<Rightarrow> post) \<Rightarrow> database \<Rightarrow> prismaError + (post \<times> database)" where
  "post_update i f db =
     (case post_findUnique i db of
        None \<Rightarrow> Inl RecordNotFound
      | Some p \<Rightarrow> Inr (f p, db\<lparr>posts := map (\<lambda>q. if id' q = i then f q else q) (posts db)\<rparr>))"

definition post_delete :: "int \<Rightarrow> database \<Rightarrow> prismaError + database" where
  "post_delete i db =
     (case post_findUnique i db of
        None \<Rightarrow> Inl RecordNotFound
      | Some p \<Rightarrow> Inr (db\<lparr>posts := filter (\<lambda>q. id' q \<noteq> i) (posts db)\<rparr>))"

text \<open>
  A \<open>where\<close> clause is empty or \<open>{status: s}\<close> with \<open>s\<close> any string the handler put there;
  the client accepts the labels of the enumeration only.
\<close>

definition whereFilter :: "string option \<Rightarrow> prismaError + (post \<Rightarrow> bool)" where
  "whereFilter w =
     (case w of
        None \<Rightarrow> Inr (\<lambda>p. True)
      | Some s \<Rightarrow> (case parseStatus s of
                     None \<Rightarrow> Inl ValidationError
                   | Some st \<Rightarrow> Inr (\<lambda>p. status p = st)))"

definition post_count :: "string option \<Rightarrow> database \<Rightarrow> prismaError + nat" where
  "post_count w db =
     (case whereFilter w of
        Inl e \<Rightarrow> Inl e
      | Inr f \<Rightarrow> Inr (length (filter f (posts db))))"

text \<open>
  \<open>findMany\<close> with \<open>orderBy: {createdAt: 'desc'}\<close>, \<open>take\<close> and \<open>skip\<close>. A negative \<open>take\<close>
  reads from the end of the ordered list (the client's backward pagination), a negative
  \<open>skip\<close> is rejected.
\<close>

definition post_findMany ::
  "string option \<Rightarrow> int \<Rightarrow> int \<Rightarrow> database \<Rightarrow> prismaError + post list" where
  "post_findMany w tk sk db =
     (case whereFilter w of
        Inl e \<Rightarrow> Inl e
      | Inr f \<Rightarrow>
          if sk < 0 then Inl ValidationError
          else
            let xs = sort_key (\<lambda>p. - createdAt p) (filter f (posts db)) in
            if 0 \<le> tk then Inr (take (nat tk) (drop (nat sk) xs))
            else Inr (rev (take (nat (- tk)) (drop (nat sk) (rev xs)))))"

definition settings_findMany :: "database \<Rightarrow> setting list" where
  "settings_findMany db = settings db"

definition settings_findUnique :: "string \<Rightarrow> database \<Rightarrow> setting option" where
  "settings_findUnique k db = find (\<lambda>s. skey s = k) (settings db)"

definition settings_upsert :: "int \<Rightarrow> string \<Rightarrow> string \<Rightarrow> database \<Rightarrow> setting \<times> database" where
  "settings_upsert t k v db =
     (let row = \<lparr>skey = k, svalue = v, updatedAt = t\<rparr> in
      case settings_findUnique k db of
        None \<Rightarrow> (row, db\<lparr>settings := settings db @ [row]\<rparr>)
      | Some old \<Rightarrow> (row, db\<lparr>settings := map (\<lambda>s. if skey s = k then row else s) (settings db)\<rparr>))"

section \<open>Outbound requests and the trace of a handler\<close>

text \<open>
  Every outbound call is \<open>fetch(url, {method: 'POST', headers: {'Content-Type':
  'application/json'}, body: JSON.stringify(payload)})\<close>. What the network answers is an
  input of the model: a response with its status code, or an exception of \<open>fetch\<close>.
\<close>

record http_request =
  url :: string
  httpMethod :: string
  contentType :: string
  body :: json

datatype fetch_result = Responded nat | Threw

fun response_ok :: "fetch_result \<Rightarrow> bool" where
  "response_ok (Responded code) = (200 \<le> code \<and> code \<le> 299)"
| "response_ok Threw = False"

definition postJson :: "string \<Rightarrow> json \<Rightarrow> http_request" where
  "postJson u payload =
     \<lparr>url = u, httpMethod = ''POST'', contentType = ''application/json'', body = payload\<rparr>"

text \<open>
  The environment of one request: the clock reading that \<open>new Date()\<close> and the column
  defaults see, the network, and the variable \<open>DISCORD_WEBHOOK_URL\<close> of the process.
\<close>

record env =
  now :: int
  fetch :: "http_request \<Rightarrow> fetch_result"
  DISCORD_WEBHOOK_URL :: "string option"

text \<open>
  What a handler does besides answering, in the order in which it does it: the rows it
  writes, the requests it sends with what came back, and the lines it logs.
\<close>

datatype event =
    PostCreated post
  | PostUpdated post
  | PostDeleted int
  | SettingUpserted setting
  | Fetch http_request fetch_result
  | ConsoleError string
  | ConsoleWarn string

section \<open>DiscordService\<close>

text \<open>
  The embed is modelled by its description and its footer; the title, the colour, the
  action links, the source field and the time stamp are decoration that depends on
  nothing else.
\<close>

definition getWebhookUrl :: "env \<Rightarrow> database \<Rightarrow> string option" where
  "getWebhookUrl e db =
     (let fromEnv = (case DISCORD_WEBHOOK_URL e of
                       Some u \<Rightarrow> (if u = [] then None else Some u)
                     | None \<Rightarrow> None)
      in case settings_findUnique ''discord_webhook_url'' db of
           Some s \<Rightarrow> (if svalue s = [] then fromEnv else Some (svalue s))
         | None \<Rightarrow> fromEnv)"

definition discordMessage :: "string \<Rightarrow> string \<Rightarrow> json" where
  "discordMessage description footer =
     JObj [(''embeds'', JArr [JObj [(''description'', JStr description),
                                     (''footer'', JObj [(''text'', JStr footer)])]])]"

text \<open>The description of the first embed of a message, as the channel shows it.\<close>

fun embedDescription :: "json \<Rightarrow> string option" where
  "embedDescription (JObj kvs) =
     (case map_of kvs ''embeds'' of
        Some (JArr (e # es)) \<Rightarrow> (case field e ''description'' of Some (JStr d) \<Rightarrow> Some d | _ \<Rightarrow> None)
      | _ \<Rightarrow> None)"
| "embedDescription _ = None"

definition sendApprovalNotification ::
  "env \<Rightarrow> database \<Rightarrow> int \<Rightarrow> string \<Rightarrow> string option \<Rightarrow> bool \<times> event list" where
  "sendApprovalNotification e db postId cont src =
     (case getWebhookUrl e db of
        None \<Rightarrow> (False, [ConsoleWarn ''Discord webhook URL not configured''])
      | Some webhookUrl \<Rightarrow>
          let displayContent = (if length cont > 1000 then take 997 cont @ ''...'' else cont);
              footer = ''Post ID: '' @ numberToString postId @
                       (case src of
                          Some s \<Rightarrow> (if s = [] then [] else '' | Source: '' @ s)
                        | None \<Rightarrow> []);
              req = postJson webhookUrl (discordMessage displayContent footer);
              res = fetch e req
          in (case res of
                Threw \<Rightarrow> (False, [Fetch req res, ConsoleError ''Failed to send Discord notification:''])
              | Responded code \<Rightarrow>
                  if \<not> response_ok res
                  then (False, [Fetch req res, ConsoleError ''Discord webhook failed:''])
                  else (True, [Fetch req res])))"

definition sendStatusUpdate ::
  "env \<Rightarrow> database \<Rightarrow> int \<Rightarrow> PostStatus \<Rightarrow> string option \<Rightarrow> bool \<times> event list" where
  "sendStatusUpdate e db postId st cont =
     (case getWebhookUrl e db of
        None \<Rightarrow> (False, [])
      | Some webhookUrl \<Rightarrow>
          let fallback = ''Post #'' @ numberToString postId @ '' has been '' @
                         toLowerCase (statusName st) @ ''.'';
              description =
                (case cont of
                   Some c \<Rightarrow>
                     (if c = [] then fallback
                      else if length c > 500 then take 497 c @ ''...'' else c)
                 | None \<Rightarrow> fallback);
              req = postJson webhookUrl (discordMessage description (''Post ID: '' @ numberToString postId));
              res = fetch e req
          in (case res of
                Threw \<Rightarrow> (False, [Fetch req res, ConsoleError ''Failed to send Discord status update:''])
              | Responded code \<Rightarrow> (response_ok res, [Fetch req res])))"

section \<open>Responses\<close>

text \<open>
  \<open>res.status(c).json(v)\<close> is \<open>Json c v\<close>; \<open>res.status(c).send(generateHtmlResponse(title,
  message, type))\<close> is \<open>Html c title message type\<close>, the page being a fixed template around
  these three.
\<close>

datatype htmlType = HtmlSuccess | HtmlError | HtmlWarning

datatype response =
    Json nat json
  | Html nat string string htmlType

fun statusCode :: "response \<Rightarrow> nat" where
  "statusCode (Json c v) = c"
| "statusCode (Html c t m k) = c"

text \<open>The human text of a response: the \<open>message\<close> property, or the message of the page.\<close>

fun responseMessage :: "response \<Rightarrow> string option" where
  "responseMessage (Json c v) = (case field v ''message'' of Some (JStr m) \<Rightarrow> Some m | _ \<Rightarrow> None)"
| "responseMessage (Html c t m k) = Some m"

definition errorJson :: "string \<Rightarrow> string \<Rightarrow> json" where
  "errorJson category msg = JObj [(''error'', JStr category), (''message'', JStr msg)]"

definition wantsJson :: "string option \<Rightarrow> bool" where
  "wantsJson accept =
     (case accept of None \<Rightarrow> False | Some a \<Rightarrow> string_includes a ''application/json'')"

fun nullable :: "('a \<Rightarrow> json) \<Rightarrow> 'a option \<Rightarrow> json" where
  "nullable f None = JNull"
| "nullable f (Some x) = f x"

definition postJsonObject :: "post \<Rightarrow> json" where
  "postJsonObject p =
     JObj [(''id'', JNum (id' p)),
           (''content'', JStr (content p)),
           (''source'', nullable JStr (source p)),
           (''status'', JStr (statusName (status p))),
           (''n8n_callback_url'', JStr (n8nCallbackUrl p)),
           (''created_at'', JDate (createdAt p)),
           (''approved_at'', nullable JDate (approvedAt p)),
           (''posted_at'', nullable JDate (postedAt p))]"

section \<open>The posts router\<close>

text \<open>
  A handler takes the environment, the properties of the request that it reads
  (\<open>req.params.id\<close> as the string of the path, the \<open>Accept\<close> header, the properties of
  \<open>req.body\<close>, the query parameters) and the database, and returns its response, the
  database it leaves and its trace. The notification that a handler starts without waiting
  for it is run to its end inside the handler.
\<close>

type_synonym outcome = "response \<times> database \<times> event list"

subsection \<open>POST /submit\<close>

definition submit :: "env \<Rightarrow> json option \<Rightarrow> json option \<Rightarrow> json option \<Rightarrow> database \<Rightarrow> outcome" where
  "submit e cont src n8n_callback_url db =
     (if falsy cont \<or> \<not> typeof_string cont
      then (Json 400 (errorJson ''Bad Request'' ''Content is required and must be a string''), db, [])
      else if falsy n8n_callback_url \<or> \<not> typeof_string n8n_callback_url
      then (Json 400 (errorJson ''Bad Request'' ''n8n_callback_url is required and must be a string''),
            db, [])
      else
        let c = stringOf cont; cb = stringOf n8n_callback_url in
        case post_create (now e) c (if falsy src then Some JNull else src) cb db of
          Inl err \<Rightarrow>
            (Json 500 (errorJson ''Internal Server Error'' ''Failed to submit post''), db,
             [ConsoleError ''Error submitting post:''])
        | Inr (p, db') \<Rightarrow>
            let sent = sendApprovalNotification e db' (id' p) c
                         (if typeof_string src then Some (stringOf src) else None)
            in (Json 202 (JObj [(''success'', JBool True),
                                (''message'', JStr ''Post submitted successfully and pending approval''),
                                (''data'', JObj [(''id'', JNum (id' p)),
                                                 (''status'', JStr (statusName (status p))),
                                                 (''created_at'', JDate (createdAt p))])]),
                db', PostCreated p # snd sent))"

subsection \<open>GET /:id/approve\<close>

definition invalidId :: "bool \<Rightarrow> response" where
  "invalidId json =
     (if json then Json 400 (errorJson ''Bad Request'' ''Invalid post ID'')
      else Html 400 ''Error'' ''Invalid post ID'' HtmlError)"

definition notFound :: "bool \<Rightarrow> response" where
  "notFound json =
     (if json then Json 404 (errorJson ''Not Found'' ''Post not found'')
      else Html 404 ''Not Found'' ''Post not found'' HtmlError)"

definition alreadyProcessed :: "bool \<Rightarrow> post \<Rightarrow> response" where
  "alreadyProcessed json p =
     (let msg = ''This post has already been '' @ toLowerCase (statusName (status p)) @ ''.'' in
      if json then Json 400 (errorJson ''Bad Request'' msg)
      else Html 400 ''Already Processed'' msg HtmlWarning)"

definition internalError :: "bool \<Rightarrow> string \<Rightarrow> response" where
  "internalError json msg =
     (if json then Json 500 (errorJson ''Internal Server Error'' msg)
      else Html 500 ''Error'' msg HtmlError)"

text \<open>The payload of the callback to the second workflow.\<close>

definition callbackPayload :: "post \<Rightarrow> json" where
  "callbackPayload p =
     JObj [(''post_id'', JNum (id' p)),
           (''status'', JStr ''APPROVED''),
           (''post_content'', JStr (content p))]"

definition sendCallback :: "env \<Rightarrow> post \<Rightarrow> event list" where
  "sendCallback e p =
     (let req = postJson (n8nCallbackUrl p) (callbackPayload p);
          res = fetch e req
      in case res of
           Threw \<Rightarrow> [Fetch req res, ConsoleError ''Failed to call n8n callback URL:'']
         | Responded code \<Rightarrow>
             if \<not> response_ok res then [Fetch req res, ConsoleError ''n8n callback failed:'']
             else [Fetch req res])"

definition approve :: "env \<Rightarrow> string \<Rightarrow> string option \<Rightarrow> database \<Rightarrow> outcome" where
  "approve e idParam accept db =
     (case parseInt idParam of
        None \<Rightarrow> (invalidId (wantsJson accept), db, [])
      | Some postId \<Rightarrow>
          (case post_findUnique postId db of
             None \<Rightarrow> (notFound (wantsJson accept), db, [])
           | Some p \<Rightarrow>
               if status p \<noteq> PENDING then (alreadyProcessed (wantsJson accept) p, db, [])
               else
                 (case post_update postId (\<lambda>q. q\<lparr>status := APPROVED, approvedAt := Some (now e)\<rparr>) db of
                    Inl err \<Rightarrow>
                      (internalError (wantsJson accept) ''Failed to approve post'', db,
                       [ConsoleError ''Error approving post:''])
                  | Inr (updatedPost, db') \<Rightarrow>
                      let called = sendCallback e p;
                          sent = sendStatusUpdate e db' postId APPROVED (Some (content p))
                      in ((if wantsJson accept
                           then Json 200 (JObj [(''success'', JBool True),
                                                (''message'', JStr ''Post approved and sent for posting''),
                                                (''data'', JObj [(''id'', JNum (id' updatedPost)),
                                                                 (''status'', JStr (statusName (status updatedPost))),
                                                                 (''approved_at'', nullable JDate (approvedAt updatedPost))])])
                           else Html 200 ''Post Approved'' ''Post Approved. Pushing to LinkedIn.'' HtmlSuccess),
                          db', PostUpdated updatedPost # called @ snd sent))))"

subsection \<open>GET /:id/reject\<close>

definition reject :: "env \<Rightarrow> string \<Rightarrow> string option \<Rightarrow> database \<Rightarrow> outcome" where
  "reject e idParam accept db =
     (case parseInt idParam of
        None \<Rightarrow> (invalidId (wantsJson accept), db, [])
      | Some postId \<Rightarrow>
          (case post_findUnique postId db of
             None \<Rightarrow> (notFound (wantsJson accept), db, [])
           | Some p \<Rightarrow>
               if status p \<noteq> PENDING then (alreadyProcessed (wantsJson accept) p, db, [])
               else
                 (case post_update postId (\<lambda>q. q\<lparr>status := REJECTED\<rparr>) db of
                    Inl err \<Rightarrow>
                      (internalError (wantsJson accept) ''Failed to reject post'', db,
                       [ConsoleError ''Error rejecting post:''])
                  | Inr (updatedPost, db') \<Rightarrow>
                      let sent = sendStatusUpdate e db' postId REJECTED (Some (content p))
                      in ((if wantsJson accept
                           then Json 200 (JObj [(''success'', JBool True),
                                                (''message'', JStr ''Post rejected''),
                                                (''data'', JObj [(''id'', JNum (id' updatedPost)),
                                                                 (''status'', JStr (statusName (status updatedPost)))])])
                           else Html 200 ''Post Rejected'' ''Post Rejected. No action taken.'' HtmlSuccess),
                          db', PostUpdated updatedPost # snd sent))))"

subsection \<open>PUT and POST /:id/posted\<close>

definition handlePostedConfirmation :: "env \<Rightarrow> string \<Rightarrow> database \<Rightarrow> outcome" where
  "handlePostedConfirmation e idParam db =
     (case parseInt idParam of
        None \<Rightarrow> (Json 400 (errorJson ''Bad Request'' ''Invalid post ID''), db, [])
      | Some postId \<Rightarrow>
          (case post_findUnique postId db of
             None \<Rightarrow> (Json 404 (errorJson ''Not Found'' ''Post not found''), db, [])
           | Some p \<Rightarrow>
               if status p \<noteq> APPROVED
               then (Json 400 (errorJson ''Bad Request''
                       (''Cannot mark post as posted. Current status: '' @ statusName (status p))),
                     db, [])
               else
                 (case post_update postId (\<lambda>q. q\<lparr>status := POSTED, postedAt := Some (now e)\<rparr>) db of
                    Inl err \<Rightarrow>
                      (Json 500 (errorJson ''Internal Server Error'' ''Failed to mark post as posted''), db,
                       [ConsoleError ''Error marking post as posted:''])
                  | Inr (updatedPost, db') \<Rightarrow>
                      let sent = sendStatusUpdate e db' postId POSTED (Some (content p))
                      in (Json 200 (JObj [(''success'', JBool True),
                                          (''message'', JStr ''Post marked as posted successfully''),
                                          (''data'', JObj [(''id'', JNum (id' updatedPost)),
                                                           (''status'', JStr (statusName (status updatedPost))),
                                                           (''posted_at'', nullable JDate (postedAt updatedPost))])]),
                          db', PostUpdated updatedPost # snd sent))))"

subsection \<open>GET /\<close>

text \<open>
  A query parameter is a string, or (a repeated or bracketed parameter) an array or an
  object, \<open>QOther s\<close> with \<open>s\<close> the string that \<open>parseInt\<close> coerces it to.
\<close>

datatype query = QStr string | QOther string

fun queryText :: "query \<Rightarrow> string" where
  "queryText (QStr s) = s"
| "queryText (QOther s) = s"

definition statusWhere :: "query option \<Rightarrow> string option" where
  "statusWhere st =
     (case st of
        Some (QStr s) \<Rightarrow> (if s = [] then None else Some (toUpperCase s))
      | _ \<Rightarrow> None)"

definition limitText :: "query option \<Rightarrow> string" where
  "limitText l = (case l of None \<Rightarrow> ''50'' | Some q \<Rightarrow> queryText q)"

definition offsetText :: "query option \<Rightarrow> string" where
  "offsetText off = (case off of None \<Rightarrow> ''0'' | Some q \<Rightarrow> queryText q)"

definition listPosts :: "query option \<Rightarrow> query option \<Rightarrow> query option \<Rightarrow> database \<Rightarrow> outcome" where
  "listPosts st l off db =
     (let w = statusWhere st in
      case post_findMany w (min (parseIntOr (limitText l) 50) 100) (parseIntOr (offsetText off) 0) db of
        Inl err \<Rightarrow>
          (Json 500 (errorJson ''Internal Server Error'' ''Failed to fetch posts''), db,
           [ConsoleError ''Error fetching posts:''])
      | Inr found \<Rightarrow>
          (case post_count w db of
             Inl err \<Rightarrow>
               (Json 500 (errorJson ''Internal Server Error'' ''Failed to fetch posts''), db,
                [ConsoleError ''Error fetching posts:''])
           | Inr totalCount \<Rightarrow>
               (Json 200 (JObj [(''success'', JBool True),
                                (''data'', JArr (map postJsonObject found)),
                                (''pagination'',
                                   JObj [(''total'', JNum (int totalCount)),
                                         (''limit'', JNum (parseIntOr (limitText l) 50)),
                                         (''offset'', JNum (parseIntOr (offsetText off) 0))])]),
                db, [])))"

subsection \<open>GET /:id, DELETE /:id and GET /stats/summary\<close>

definition getPost :: "string \<Rightarrow> database \<Rightarrow> outcome" where
  "getPost idParam db =
     (case parseInt idParam of
        None \<Rightarrow> (Json 400 (errorJson ''Bad Request'' ''Invalid post ID''), db, [])
      | Some postId \<Rightarrow>
          (case post_findUnique postId db of
             None \<Rightarrow> (Json 404 (errorJson ''Not Found'' ''Post not found''), db, [])
           | Some p \<Rightarrow>
               (Json 200 (JObj [(''success'', JBool True), (''data'', postJsonObject p)]), db, [])))"

definition deletePost :: "string \<Rightarrow> database \<Rightarrow> outcome" where
  "deletePost idParam db =
     (case parseInt idParam of
        None \<Rightarrow> (Json 400 (errorJson ''Bad Request'' ''Invalid post ID''), db, [])
      | Some postId \<Rightarrow>
          (case post_findUnique postId db of
             None \<Rightarrow> (Json 404 (errorJson ''Not Found'' ''Post not found''), db, [])
           | Some p \<Rightarrow>
               (case post_delete postId db of
                  Inl err \<Rightarrow>
                    (Json 500 (errorJson ''Internal Server Error'' ''Failed to delete post''), db,
                     [ConsoleError ''Error deleting post:''])
                | Inr db' \<Rightarrow>
                    (Json 200 (JObj [(''success'', JBool True),
                                     (''message'', JStr ''Post deleted successfully'')]),
                     db', [PostDeleted postId]))))"

definition countStatus :: "PostStatus \<Rightarrow> database \<Rightarrow> nat" where
  "countStatus st db = (case post_count (Some (statusName st)) db of Inr n \<Rightarrow> n | Inl err \<Rightarrow> 0)"

definition statsSummary :: "database \<Rightarrow> outcome" where
  "statsSummary db =
     (let pending = countStatus PENDING db; approved = countStatus APPROVED db;
          rejected = countStatus REJECTED db; posted = countStatus POSTED db
      in (Json 200 (JObj [(''success'', JBool True),
                          (''data'', JObj [(''pending'', JNum (int pending)),
                                           (''approved'', JNum (int approved)),
                                           (''rejected'', JNum (int rejected)),
                                           (''posted'', JNum (int posted)),
                                           (''total'', JNum (int (pending + approved + rejected + posted)))])]),
          db, []))"

section \<open>The settings router\<close>

definition allowedKeys :: "string list" where
  "allowedKeys = [''discord_webhook_url'', ''n8n_base_url'']"

text \<open>\<open>settingsMap[s.key] = s.value\<close> for every row, in the order of the rows.\<close>

fun setProperty :: "string \<Rightarrow> json \<Rightarrow> (string \<times> json) list \<Rightarrow> (string \<times> json) list" where
  "setProperty k v [] = [(k, v)]"
| "setProperty k v ((k', v') # kvs) =
     (if k' = k then (k, v) # kvs else (k', v') # setProperty k v kvs)"

definition settingsMap :: "setting list \<Rightarrow> json" where
  "settingsMap rows = JObj (foldl (\<lambda>m s. setProperty (skey s) (JStr (svalue s)) m) [] rows)"

definition getSettings :: "database \<Rightarrow> outcome" where
  "getSettings db =
     (Json 200 (JObj [(''success'', JBool True), (''data'', settingsMap (settings_findMany db))]),
      db, [])"

text \<open>\<open>Object.entries\<close> of a body that passed the \<open>typeof\<close> guard: an array has its indices as keys.\<close>

fun objectEntries :: "json \<Rightarrow> (string \<times> json) list" where
  "objectEntries (JObj kvs) = kvs"
| "objectEntries (JArr xs) = zip (map natToString [0..<length xs]) xs"
| "objectEntries _ = []"

text \<open>
  The loop over the entries: an entry outside the allow-list or with a value that is
  not a string is passed over, the others are upserted, in the order of the entries.
\<close>

fun upsertEntries :: "int \<Rightarrow> (string \<times> json) list \<Rightarrow> database \<Rightarrow> database \<times> event list" where
  "upsertEntries t [] db = (db, [])"
| "upsertEntries t ((k, v) # rest) db =
     (if k \<notin> set allowedKeys then upsertEntries t rest db
      else if \<not> typeof_string (Some v) then upsertEntries t rest db
      else
        let (row, db') = settings_upsert t k (stringOf (Some v)) db;
            (db'', evs) = upsertEntries t rest db'
        in (db'', SettingUpserted row # evs))"

definition putSettings :: "env \<Rightarrow> json \<Rightarrow> database \<Rightarrow> outcome" where
  "putSettings e reqBody db =
     (if reqBody = JNull \<or> \<not> typeof_object reqBody
      then (Json 400 (errorJson ''Bad Request'' ''Settings must be an object''), db, [])
      else
        let (db', evs) = upsertEntries (now e) (objectEntries reqBody) db in
        (Json 200 (JObj [(''success'', JBool True),
                         (''message'', JStr ''Settings updated successfully''),
                         (''data'', settingsMap (settings_findMany db'))]),
         db', evs))"

definition getSetting :: "string \<Rightarrow> database \<Rightarrow> outcome" where
  "getSetting k db =
     (case settings_findUnique k db of
        None \<Rightarrow> (Json 404 (errorJson ''Not Found'' ''Setting not found''), db, [])
      | Some s \<Rightarrow>
          (Json 200 (JObj [(''success'', JBool True),
                           (''data'', JObj [(''key'', JStr (skey s)), (''value'', JStr (svalue s))])]),
           db, []))"

definition putSetting :: "env \<Rightarrow> string \<Rightarrow> json option \<Rightarrow> database \<Rightarrow> outcome" where
  "putSetting e k v db =
     (if k \<notin> set allowedKeys
      then (Json 400 (errorJson ''Bad Request'' ''Invalid setting key''), db, [])
      else if \<not> typeof_string v
      then (Json 400 (errorJson ''Bad Request'' ''Value must be a string''), db, [])
      else
        let (s, db') = settings_upsert (now e) k (stringOf v) db in
        (Json 200 (JObj [(''success'', JBool True),
                         (''message'', JStr ''Setting updated successfully''),
                         (''data'', JObj [(''key'', JStr (skey s)), (''value'', JStr (svalue s))])]),
         db', [SettingUpserted s]))"

section \<open>The service as a state machine\<close>

datatype request =
    Submit "json option" "json option" "json option"
  | Approve string "string option"
  | Reject string "string option"
  | ConfirmPosted string
  | ListPosts "query option" "query option" "query option"
  | GetPost string
  | DeletePost string
  | StatsSummary
  | GetSettings
  | PutSettings json
  | GetSetting string
  | PutSetting string "json option"

fun handle :: "env \<Rightarrow> request \<Rightarrow> database \<Rightarrow> outcome" where
  "handle e (Submit c s u) db = submit e c s u db"
| "handle e (Approve i a) db = approve e i a db"
| "handle e (Reject i a) db = reject e i a db"
| "handle e (ConfirmPosted i) db = handlePostedConfirmation e i db"
| "handle e (ListPosts st l off) db = listPosts st l off db"
| "handle e (GetPost i) db = getPost i db"
| "handle e (DeletePost i) db = deletePost i db"
| "handle e StatsSummary db = statsSummary db"
| "handle e GetSettings db = getSettings db"
| "handle e (PutSettings b) db = putSettings e b db"
| "handle e (GetSetting k) db = getSetting k db"
| "handle e (PutSetting k v) db = putSetting e k v db"

definition databaseAfter :: "env \<Rightarrow> request \<Rightarrow> database \<Rightarrow> database" where
  "databaseAfter e r db = fst (snd (handle e r db))"

text \<open>The states of the store that the service reaches from the empty database.\<close>

inductive reachable :: "database \<Rightarrow> bool" where
  initial: "reachable emptyDatabase"
| step: "reachable db \<Longrightarrow> reachable (databaseAfter e r db)"

section \<open>Reading traces and responses\<close>

text \<open>The outbound requests of a trace, in the order in which they were sent.\<close>

fun requestsOf :: "event list \<Rightarrow> http_request list" where
  "requestsOf [] = []"
| "requestsOf (Fetch r res # evs) = r # requestsOf evs"
| "requestsOf (ev # evs) = requestsOf evs"


text \<open>The JSON bodies that a trace sent by POST to one URL.\<close>

definition postsTo :: "string \<Rightarrow> event list \<Rightarrow> json list" where
  "postsTo u evs =
     map body (filter (\<lambda>r. url r = u \<and> httpMethod r = ''POST'') (requestsOf evs))"

text \<open>The events that write to the database.\<close>

fun isWrite :: "event \<Rightarrow> bool" where
  "isWrite (PostCreated p) = True"
| "isWrite (PostUpdated p) = True"
| "isWrite (PostDeleted i) = True"
| "isWrite (SettingUpserted s) = True"
| "isWrite _ = False"

definition objectKeys :: "json \<Rightarrow> string list" where
  "objectKeys v = map fst (objectEntries v)"



subsection \<open>The invariant of the store\<close>

text \<open>
  The time stamps of a record agree with its status; the identifiers of the table are
  distinct and below the next value of the sequence.
\<close>

definition statusInvariant :: "post \<Rightarrow> bool" where
  "statusInvariant p =
     ((approvedAt p \<noteq> None) = (status p = APPROVED \<or> status p = POSTED)
      \<and> (postedAt p \<noteq> None) = (status p = POSTED))"

definition storeInvariant :: "database \<Rightarrow> bool" where
  "storeInvariant db =
     (distinct (map id' (posts db))
      \<and> list_all (\<lambda>p. id' p < postSeq db) (posts db)
      \<and> list_all statusInvariant (posts db))"

text \<open>The moves of the status of a record: staying, or one edge of the workflow.\<close>

fun legalMove :: "PostStatus \<Rightarrow> PostStatus \<Rightarrow> bool" where
  "legalMove PENDING APPROVED = True"
| "legalMove PENDING REJECTED = True"
| "legalMove APPROVED POSTED = True"
| "legalMove s s' = (s = s')"

subsection \<open>A sample run\<close>

text \<open>
  An environment whose network answers 500 to every request, and the database after the
  submission \<open>{content: "Hello", n8n_callback_url: "https://cb.example/x"}\<close> to an empty
  service.
\<close>

definition sampleEnv :: env where
  "sampleEnv = \<lparr>now = 1000, fetch = (\<lambda>r. Responded 500),
                 DISCORD_WEBHOOK_URL = Some ''https://discord.example/hook''\<rparr>"

definition samplePost :: post where
  "samplePost = \<lparr>id' = 1, content = ''Hello'', source = None, status = PENDING,
                  n8nCallbackUrl = ''https://cb.example/x'', createdAt = 1000,
                  approvedAt = None, postedAt = None\<rparr>"

definition sampleDatabase :: database where
  "sampleDatabase = \<lparr>posts = [samplePost], postSeq = 2, settings = []\<rparr>"


section \<open>Strings: facts\<close>




lemma toLowerCase_statusName:
  "toLowerCase (statusName st) =
     (case st of PENDING \<Rightarrow> ''pending'' | APPROVED \<Rightarrow> ''approved''
               | REJECTED \<Rightarrow> ''rejected'' | POSTED \<Rightarrow> ''posted'')"
  by (cases st) (simp_all add: toLowerCase_def upperLetters_def lowerLetters_def)

lemma parseStatus_statusName [simp]: "parseStatus (statusName st) = Some st"
  by (cases st) (simp_all add: parseStatus_def)


section \<open>DiscordService: what a notice shows\<close>

lemma embedDescription_discordMessage [simp]:
  "embedDescription (discordMessage d f) = Some d"
  by (simp add: discordMessage_def)







section \<open>The guards of the transitions\<close>

lemma sample_find: "post_findUnique 1 sampleDatabase = Some samplePost"
  by (simp add: post_findUnique_def sampleDatabase_def samplePost_def)

lemma parseInt_one: "parseInt ''1'' = Some 1"
  by (simp add: parseInt_def isWhiteSpace_def digitValue_def)








text \<open>
  Claim C6, as amended. For a record in status PENDING, the posted confirmation answers
  400 with the message \<open>Cannot mark post as posted. Current status: PENDING\<close>, which
  contains the token \<open>PENDING\<close>, and leaves the database unchanged.
\<close>

theorem confirmPosted_pending:
  assumes "parseInt idParam = Some i"
      and "post_findUnique i db = Some p"
      and "status p = PENDING"
  shows "handlePostedConfirmation e idParam db =
           (Json 400 (JObj [(''error'', JStr ''Bad Request''),
                            (''message'', JStr ''Cannot mark post as posted. Current status: PENDING'')]),
            db, [])
       \<and> string_includes ''Cannot mark post as posted. Current status: PENDING'' ''PENDING''"
  using assms by (simp add: handlePostedConfirmation_def errorJson_def)

text \<open>
  The sample record, which is pending.
\<close>

theorem confirmPosted_pending_witness:
  "handlePostedConfirmation sampleEnv ''1'' sampleDatabase =
     (Json 400 (JObj [(''error'', JStr ''Bad Request''),
                      (''message'', JStr ''Cannot mark post as posted. Current status: PENDING'')]),
      sampleDatabase, [])
   \<and> string_includes ''Cannot mark post as posted. Current status: PENDING'' ''PENDING''"
  using confirmPosted_pending [OF parseInt_one sample_find, of sampleEnv]
  by (simp add: samplePost_def)

text \<open>
  Claim C6 as stated fails on the sample record: it is pending, the answer is 400, and
  its message does not contain the token \<open>APPROVED\<close>.
\<close>

theorem confirmPosted_pending_message_lacks_APPROVED:
  "status samplePost = PENDING
   \<and> statusCode (fst (handlePostedConfirmation sampleEnv ''1'' sampleDatabase)) = 400
   \<and> responseMessage (fst (handlePostedConfirmation sampleEnv ''1'' sampleDatabase)) =
       Some ''Cannot mark post as posted. Current status: PENDING''
   \<and> \<not> string_includes ''Cannot mark post as posted. Current status: PENDING'' ''APPROVED''"
  by (simp add: handlePostedConfirmation_def parseInt_one sample_find errorJson_def samplePost_def)

section \<open>Approval: the commit and the callback\<close>

lemma find_map_same_id:
  assumes "\<And>q. id' (g q) = id' q"
  shows "find (\<lambda>q. id' q = j) (map g xs) = map_option g (find (\<lambda>q. id' q = j) xs)"
  by (induction xs) (simp_all add: assms)

lemma requestsOf_append: "requestsOf (xs @ ys) = requestsOf xs @ requestsOf ys"
  by (induction xs rule: requestsOf.induct) simp_all

lemma requestsOf_sendCallback:
  "requestsOf (sendCallback e p) = [postJson (n8nCallbackUrl p) (callbackPayload p)]"
  by (simp add: sendCallback_def Let_def split: fetch_result.splits)

lemma sendCallback_starts:
  "\<exists>logged. sendCallback e p =
      Fetch (postJson (n8nCallbackUrl p) (callbackPayload p))
            (fetch e (postJson (n8nCallbackUrl p) (callbackPayload p))) # logged
    \<and> filter isWrite logged = []"
  by (simp add: sendCallback_def Let_def split: fetch_result.splits)

lemma requestsOf_sendStatusUpdate:
  "requestsOf (snd (sendStatusUpdate e db i st c)) = [] \<or>
   (\<exists>u d f. requestsOf (snd (sendStatusUpdate e db i st c)) = [postJson u (discordMessage d f)])"
  by (cases "getWebhookUrl e db")
     (auto simp: sendStatusUpdate_def Let_def split: fetch_result.splits)

lemma sendStatusUpdate_no_write: "filter isWrite (snd (sendStatusUpdate e db i st c)) = []"
  by (simp add: sendStatusUpdate_def Let_def split: option.splits fetch_result.splits)

lemma approve_pending:
  assumes "parseInt idParam = Some i"
      and "post_findUnique i db = Some p"
      and "status p = PENDING"
  shows "approve e idParam accept db =
           ((if wantsJson accept
             then Json 200 (JObj [(''success'', JBool True),
                                  (''message'', JStr ''Post approved and sent for posting''),
                                  (''data'', JObj [(''id'', JNum (id' p)),
                                                   (''status'', JStr ''APPROVED''),
                                                   (''approved_at'', JDate (now e))])])
             else Html 200 ''Post Approved'' ''Post Approved. Pushing to LinkedIn.'' HtmlSuccess),
            db\<lparr>posts := map (\<lambda>q. if id' q = i then q\<lparr>status := APPROVED, approvedAt := Some (now e)\<rparr> else q)
                             (posts db)\<rparr>,
            PostUpdated (p\<lparr>status := APPROVED, approvedAt := Some (now e)\<rparr>)
              # sendCallback e p
              @ snd (sendStatusUpdate e
                      (db\<lparr>posts := map (\<lambda>q. if id' q = i then q\<lparr>status := APPROVED, approvedAt := Some (now e)\<rparr> else q)
                                       (posts db)\<rparr>)
                      i APPROVED (Some (content p))))"
  using assms by (simp add: approve_def post_update_def Let_def)

lemma find_Some_id: "find (\<lambda>q. id' q = i) xs = Some p \<Longrightarrow> id' p = i"
  by (induction xs) (auto split: if_splits)

text \<open>
  Claim C3. For a record in status PENDING, whatever the network of the environment
  answers to the callback: the trace of approve starts with the update of the record to
  APPROVED with \<open>approvedAt\<close> set to the clock, then comes the callback request with its
  outcome, and nothing after it writes to the database; the database that approve leaves
  holds the record as APPROVED; and approve answers 200 with its success body or page.
\<close>

theorem approve_commits_before_callback:
  assumes "parseInt idParam = Some i"
      and "post_findUnique i db = Some p"
      and "status p = PENDING"
  shows "\<exists>resp db' rest.
           approve e idParam accept db =
             (resp, db',
              PostUpdated (p\<lparr>status := APPROVED, approvedAt := Some (now e)\<rparr>)
                # Fetch (postJson (n8nCallbackUrl p) (callbackPayload p))
                        (fetch e (postJson (n8nCallbackUrl p) (callbackPayload p)))
                # rest)
         \<and> filter isWrite rest = []
         \<and> post_findUnique i db' = Some (p\<lparr>status := APPROVED, approvedAt := Some (now e)\<rparr>)
         \<and> statusCode resp = 200
         \<and> resp =
             (if wantsJson accept
              then Json 200 (JObj [(''success'', JBool True),
                                   (''message'', JStr ''Post approved and sent for posting''),
                                   (''data'', JObj [(''id'', JNum i),
                                                    (''status'', JStr ''APPROVED''),
                                                    (''approved_at'', JDate (now e))])])
              else Html 200 ''Post Approved'' ''Post Approved. Pushing to LinkedIn.'' HtmlSuccess)"
proof -
  let ?f = "\<lambda>q. if id' q = i then q\<lparr>status := APPROVED, approvedAt := Some (now e)\<rparr> else q"
  let ?db' = "db\<lparr>posts := map ?f (posts db)\<rparr>"
  have idp: "id' p = i"
    using assms(2) unfolding post_findUnique_def by (rule find_Some_id)
  obtain logged where cb: "sendCallback e p =
      Fetch (postJson (n8nCallbackUrl p) (callbackPayload p))
            (fetch e (postJson (n8nCallbackUrl p) (callbackPayload p))) # logged"
    and nw: "filter isWrite logged = []"
    using sendCallback_starts by blast
  have found: "post_findUnique i ?db' = Some (p\<lparr>status := APPROVED, approvedAt := Some (now e)\<rparr>)"
    using assms(2) idp find_map_same_id [of ?f i "posts db"]
    by (simp add: post_findUnique_def)
  let ?req = "postJson (n8nCallbackUrl p) (callbackPayload p)"
  let ?rest = "logged @ snd (sendStatusUpdate e ?db' i APPROVED (Some (content p)))"
  let ?resp = "if wantsJson accept
               then Json 200 (JObj [(''success'', JBool True),
                                    (''message'', JStr ''Post approved and sent for posting''),
                                    (''data'', JObj [(''id'', JNum i),
                                                     (''status'', JStr ''APPROVED''),
                                                     (''approved_at'', JDate (now e))])])
               else Html 200 ''Post Approved'' ''Post Approved. Pushing to LinkedIn.'' HtmlSuccess"
  have eq: "approve e idParam accept db =
              (?resp, ?db',
               PostUpdated (p\<lparr>status := APPROVED, approvedAt := Some (now e)\<rparr>)
                 # Fetch ?req (fetch e ?req) # ?rest)"
    unfolding approve_pending [OF assms] cb idp by simp
  have quiet: "filter isWrite ?rest = []"
    using nw sendStatusUpdate_no_write [of e ?db' i APPROVED "Some (content p)"] by simp
  have ok: "statusCode ?resp = 200"
    by simp
  show ?thesis
    by (intro exI conjI) (rule eq quiet found ok refl)+
qed

text \<open>
  Claim C1, as amended. For a record in status PENDING that approve approves (it answers
  200), the trace holds exactly one request whose body is the object with the keys
  \<open>post_id\<close>, \<open>status\<close> and \<open>post_content\<close>, where \<open>post_id\<close> is the identifier of the record,
  \<open>status\<close> is \<open>APPROVED\<close> and \<open>post_content\<close> is the stored content; that request is a POST
  of JSON to the stored callback URL, and it is the only POST to that URL with this body.
\<close>

theorem approve_posts_callback_once:
  assumes "parseInt idParam = Some i"
      and "post_findUnique i db = Some p"
      and "status p = PENDING"
  shows "statusCode (fst (approve e idParam accept db)) = 200
       \<and> callbackPayload p =
           JObj [(''post_id'', JNum i), (''status'', JStr ''APPROVED''), (''post_content'', JStr (content p))]
       \<and> filter (\<lambda>r. body r = callbackPayload p) (requestsOf (snd (snd (approve e idParam accept db)))) =
           [\<lparr>url = n8nCallbackUrl p, httpMethod = ''POST'', contentType = ''application/json'',
             body = callbackPayload p\<rparr>]
       \<and> count_list (postsTo (n8nCallbackUrl p) (snd (snd (approve e idParam accept db))))
            (callbackPayload p) = 1"
proof -
  let ?db' = "db\<lparr>posts := map (\<lambda>q. if id' q = i then q\<lparr>status := APPROVED, approvedAt := Some (now e)\<rparr> else q)
                             (posts db)\<rparr>"
  have idp: "id' p = i"
    using assms(2) unfolding post_findUnique_def by (rule find_Some_id)
  have differ: "discordMessage d f \<noteq> callbackPayload p" for d f
    by (simp add: discordMessage_def callbackPayload_def)
  have reqs: "requestsOf (snd (snd (approve e idParam accept db))) =
              postJson (n8nCallbackUrl p) (callbackPayload p)
                # requestsOf (snd (sendStatusUpdate e ?db' i APPROVED (Some (content p))))"
    by (simp add: approve_pending [OF assms] requestsOf_append requestsOf_sendCallback)
  let ?ds = "requestsOf (snd (sendStatusUpdate e ?db' i APPROVED (Some (content p))))"
  have others: "\<forall>r \<in> set ?ds. body r \<noteq> callbackPayload p"
    using requestsOf_sendStatusUpdate [of e ?db' i APPROVED "Some (content p)"] differ
    by (auto simp: postJson_def)
  have none: "filter (\<lambda>r. body r = callbackPayload p) ?ds = []"
    using others by (simp add: filter_empty_conv)
  have zero: "count_list (map body (filter (\<lambda>r. url r = n8nCallbackUrl p \<and> httpMethod r = ''POST'') ?ds))
                (callbackPayload p) = 0"
    using others by (auto simp: count_list_0_iff)
  have code: "statusCode (fst (approve e idParam accept db)) = 200"
    by (simp add: approve_pending [OF assms])
  have payload: "callbackPayload p =
      JObj [(''post_id'', JNum i), (''status'', JStr ''APPROVED''), (''post_content'', JStr (content p))]"
    by (simp add: callbackPayload_def idp)
  have once: "filter (\<lambda>r. body r = callbackPayload p) (requestsOf (snd (snd (approve e idParam accept db)))) =
           [\<lparr>url = n8nCallbackUrl p, httpMethod = ''POST'', contentType = ''application/json'',
             body = callbackPayload p\<rparr>]"
    unfolding reqs using none by (simp add: postJson_def)
  have cnt: "count_list (postsTo (n8nCallbackUrl p) (snd (snd (approve e idParam accept db))))
            (callbackPayload p) = 1"
    unfolding reqs postsTo_def using zero by (simp add: postJson_def)
  show ?thesis
    using code payload once cnt by (intro conjI)
qed

lemma sample_pending: "status samplePost = PENDING"
  by (simp add: samplePost_def)

lemma sample_approve:
  "approve sampleEnv ''1'' None sampleDatabase =
     (Html 200 ''Post Approved'' ''Post Approved. Pushing to LinkedIn.'' HtmlSuccess,
      sampleDatabase\<lparr>posts := [samplePost\<lparr>status := APPROVED, approvedAt := Some 1000\<rparr>]\<rparr>,
      [PostUpdated (samplePost\<lparr>status := APPROVED, approvedAt := Some 1000\<rparr>),
       Fetch (postJson ''https://cb.example/x''
                (JObj [(''post_id'', JNum 1), (''status'', JStr ''APPROVED''),
                       (''post_content'', JStr ''Hello'')]))
             (Responded 500),
       ConsoleError ''n8n callback failed:'',
       Fetch (postJson ''https://discord.example/hook''
                (discordMessage ''Hello'' ''Post ID: 1''))
             (Responded 500)])"
proof -
  have hook: "getWebhookUrl sampleEnv
                (sampleDatabase\<lparr>posts := map (\<lambda>q. if id' q = 1 then q\<lparr>status := APPROVED, approvedAt := Some (now sampleEnv)\<rparr> else q)
                                              (posts sampleDatabase)\<rparr>) =
              Some ''https://discord.example/hook''"
    by (simp add: getWebhookUrl_def sampleEnv_def sampleDatabase_def settings_findUnique_def)
  have cb: "sendCallback sampleEnv samplePost =
      [Fetch (postJson ''https://cb.example/x''
                (JObj [(''post_id'', JNum 1), (''status'', JStr ''APPROVED''),
                       (''post_content'', JStr ''Hello'')]))
             (Responded 500),
       ConsoleError ''n8n callback failed:'']"
    by (simp add: sendCallback_def callbackPayload_def samplePost_def sampleEnv_def Let_def)
  have one: "numberToString 1 = ''1''"
    by (simp add: numberToString_def natToString.simps digitChar_def)
  have upd: "snd (sendStatusUpdate sampleEnv
                (sampleDatabase\<lparr>posts := map (\<lambda>q. if id' q = 1 then q\<lparr>status := APPROVED, approvedAt := Some (now sampleEnv)\<rparr> else q)
                                              (posts sampleDatabase)\<rparr>)
                1 APPROVED (Some (content samplePost))) =
             [Fetch (postJson ''https://discord.example/hook'' (discordMessage ''Hello'' ''Post ID: 1''))
                    (Responded 500)]"
    by (simp add: sendStatusUpdate_def hook one Let_def)
       (simp add: samplePost_def sampleEnv_def)
  have nj: "\<not> wantsJson None"
    by (simp add: wantsJson_def)
  show ?thesis
    unfolding approve_pending [OF parseInt_one sample_find sample_pending] cb upd
    using nj by (simp add: sampleDatabase_def samplePost_def sampleEnv_def)
qed

text \<open>
  The sample record under the sample environment, whose network answers 500 to the
  callback.
\<close>

theorem approve_commits_before_callback_witness:
  "parseInt ''1'' = Some 1
   \<and> post_findUnique 1 sampleDatabase = Some samplePost
   \<and> status samplePost = PENDING
   \<and> \<not> response_ok (fetch sampleEnv (postJson (n8nCallbackUrl samplePost) (callbackPayload samplePost)))
   \<and> (\<exists>resp db' rest.
         approve sampleEnv ''1'' None sampleDatabase =
           (resp, db',
            PostUpdated (samplePost\<lparr>status := APPROVED, approvedAt := Some 1000\<rparr>)
              # Fetch (postJson (n8nCallbackUrl samplePost) (callbackPayload samplePost)) (Responded 500)
              # rest)
         \<and> filter isWrite rest = []
         \<and> post_findUnique 1 db' = Some (samplePost\<lparr>status := APPROVED, approvedAt := Some 1000\<rparr>)
         \<and> statusCode resp = 200
         \<and> resp = Html 200 ''Post Approved'' ''Post Approved. Pushing to LinkedIn.'' HtmlSuccess)"
proof -
  have net: "fetch sampleEnv r = Responded 500" for r
    by (simp add: sampleEnv_def)
  have clock: "now sampleEnv = 1000"
    by (simp add: sampleEnv_def)
  have nj: "\<not> wantsJson None"
    by (simp add: wantsJson_def)
  show ?thesis
    using approve_commits_before_callback [OF parseInt_one sample_find sample_pending, of sampleEnv None]
    unfolding net clock
    by (simp add: parseInt_one sample_find sample_pending nj)
qed

text \<open>
  The sample record and its callback URL.
\<close>

theorem approve_posts_callback_once_witness:
  "parseInt ''1'' = Some 1
   \<and> post_findUnique 1 sampleDatabase = Some samplePost
   \<and> status samplePost = PENDING
   \<and> statusCode (fst (approve sampleEnv ''1'' None sampleDatabase)) = 200
   \<and> count_list (postsTo ''https://cb.example/x'' (snd (snd (approve sampleEnv ''1'' None sampleDatabase))))
        (JObj [(''post_id'', JNum 1), (''status'', JStr ''APPROVED''), (''post_content'', JStr ''Hello'')]) = 1"
proof -
  have cb: "n8nCallbackUrl samplePost = ''https://cb.example/x''"
    and cont: "content samplePost = ''Hello''"
    by (simp_all add: samplePost_def)
  note once = approve_posts_callback_once [OF parseInt_one sample_find sample_pending, of sampleEnv None]
  note code = once [THEN conjunct1]
  note payload = once [THEN conjunct2, THEN conjunct1, unfolded cont]
  note cnt = once [THEN conjunct2, THEN conjunct2, THEN conjunct2, unfolded payload cb]
  show ?thesis
    using parseInt_one sample_find sample_pending code cnt by (intro conjI)
qed

text \<open>
  Claim C1 as stated fails on the sample record: approve answers 200, the one body
  posted to the callback URL has the keys \<open>post_id\<close>, \<open>status\<close> and \<open>post_content\<close>, and no
  body with the keys \<open>id\<close>, \<open>status\<close> and \<open>content\<close> is posted there.
\<close>

theorem callback_payload_keys:
  "statusCode (fst (approve sampleEnv ''1'' None sampleDatabase)) = 200
   \<and> map objectKeys (postsTo ''https://cb.example/x'' (snd (snd (approve sampleEnv ''1'' None sampleDatabase)))) =
       [[''post_id'', ''status'', ''post_content'']]
   \<and> count_list (postsTo ''https://cb.example/x'' (snd (snd (approve sampleEnv ''1'' None sampleDatabase))))
        (JObj [(''id'', JNum 1), (''status'', JStr ''APPROVED''), (''content'', JStr ''Hello'')]) = 0"
  unfolding sample_approve
  by (simp add: postsTo_def postJson_def objectKeys_def)

section \<open>The settings store\<close>


lemma find_append_row:
  "find P (xs @ [x]) = (case find P xs of Some y \<Rightarrow> Some y | None \<Rightarrow> if P x then Some x else None)"
  by (induction xs) auto


lemma fst_settings_upsert: "fst (settings_upsert t k v db) = \<lparr>skey = k, svalue = v, updatedAt = t\<rparr>"
  by (simp add: settings_upsert_def Let_def split: option.splits)















section \<open>Listing\<close>

















section \<open>The status of a record\<close>

lemma legalMove_refl [simp]: "legalMove s s"
  by (cases s) simp_all

lemma find_id_unique:
  assumes "find (\<lambda>q. id' q = i) xs = Some p"
      and "distinct (map id' xs)"
      and "q \<in> set xs"
      and "id' q = i"
  shows "q = p"
proof -
  have "p \<in> set xs" and "id' p = i"
    using assms(1) by (auto simp: find_Some_iff in_set_conv_nth)
  moreover have "inj_on id' (set xs)"
    using assms(2) by (simp add: distinct_map)
  ultimately show ?thesis
    using assms(3,4) by (auto dest: inj_onD)
qed

lemma find_filter_other:
  assumes "i \<noteq> j"
  shows "find (\<lambda>q. id' q = i) (filter (\<lambda>q. id' q \<noteq> j) xs) = find (\<lambda>q. id' q = i) xs"
  using assms by (induction xs) auto

lemma storeInvariant_settings [simp]: "storeInvariant (db\<lparr>settings := ss\<rparr>) = storeInvariant db"
  by (simp add: storeInvariant_def)

lemma post_findUnique_settings [simp]: "post_findUnique i (db\<lparr>settings := ss\<rparr>) = post_findUnique i db"
  by (simp add: post_findUnique_def)

lemma found_member:
  assumes "post_findUnique i db = Some p"
  shows "p \<in> set (posts db)" and "id' p = i"
  using assms by (auto simp: post_findUnique_def find_Some_iff)

lemma found_invariant:
  assumes "storeInvariant db" and "post_findUnique i db = Some p"
  shows "statusInvariant p"
  using assms found_member(1) [OF assms(2)] by (simp add: storeInvariant_def list_all_iff)

lemma update_preserves:
  assumes inv: "storeInvariant db"
      and found: "post_findUnique i db = Some p"
      and same: "\<And>q. id' (f q) = id' q"
      and good: "statusInvariant (f p)"
  shows "storeInvariant (db\<lparr>posts := map (\<lambda>q. if id' q = i then f q else q) (posts db)\<rparr>)"
proof -
  let ?g = "\<lambda>q. if id' q = i then f q else q"
  have ids: "id' \<circ> ?g = id'"
    by (auto simp: fun_eq_iff same)
  have only: "q \<in> set (posts db) \<Longrightarrow> id' q = i \<Longrightarrow> q = p" for q
    using find_id_unique [of i "posts db" p q] found inv
    by (simp add: post_findUnique_def storeInvariant_def)
  have d: "distinct (map id' (map ?g (posts db)))"
    using inv by (simp add: ids storeInvariant_def)
  have b: "list_all (\<lambda>p. id' p < postSeq db) (map ?g (posts db))"
    using inv by (auto simp: storeInvariant_def list_all_iff same)
  have t: "list_all statusInvariant (map ?g (posts db))"
    using inv good only by (auto simp: storeInvariant_def list_all_iff)
  show ?thesis
    using d b t by (simp add: storeInvariant_def)
qed

lemma update_legal:
  assumes target: "post_findUnique j db = Some pj"
      and same: "\<And>q. id' (f q) = id' q"
      and move: "legalMove (status pj) (status (f pj))"
      and before: "post_findUnique i db = Some p"
      and after: "post_findUnique i (db\<lparr>posts := map (\<lambda>q. if id' q = j then f q else q) (posts db)\<rparr>) = Some p'"
  shows "legalMove (status p) (status p')"
proof -
  let ?g = "\<lambda>q. if id' q = j then f q else q"
  have "find (\<lambda>q. id' q = i) (map ?g (posts db)) = map_option ?g (find (\<lambda>q. id' q = i) (posts db))"
    by (rule find_map_same_id) (simp add: same)
  then have p': "p' = ?g p"
    using before after by (simp add: post_findUnique_def)
  have idp: "id' p = i"
    using before unfolding post_findUnique_def by (rule find_Some_id)
  show ?thesis
  proof (cases "i = j")
    case True
    then have "pj = p"
      using target before by simp
    then show ?thesis
      using p' idp True move by simp
  next
    case False
    then show ?thesis
      using p' idp by simp
  qed
qed

subsection \<open>What each handler does to the table\<close>

lemma post_create_Inr:
  assumes "post_create t c src cb db = Inr (p, db')"
  shows "id' p = postSeq db \<and> status p = PENDING \<and> approvedAt p = None \<and> postedAt p = None
         \<and> db' = db\<lparr>posts := posts db @ [p], postSeq := postSeq db + 1\<rparr>"
  using assms by (auto simp: post_create_def Let_def split: if_splits)

lemma submit_database:
  "fst (snd (submit e c s u db)) = db \<or>
   (\<exists>p. id' p = postSeq db \<and> status p = PENDING \<and> approvedAt p = None \<and> postedAt p = None
        \<and> fst (snd (submit e c s u db)) = db\<lparr>posts := posts db @ [p], postSeq := postSeq db + 1\<rparr>)"
proof (cases "post_create (now e) (stringOf c) (if falsy s then Some JNull else s) (stringOf u) db")
  case (Inl err)
  then show ?thesis
    by (simp add: submit_def Let_def)
next
  case (Inr created)
  obtain p db' where created: "created = (p, db')"
    by (cases created)
  show ?thesis
    using post_create_Inr [OF Inr [unfolded created]] Inr created
    by (auto simp: submit_def Let_def)
qed

lemma approve_database:
  "fst (snd (approve e idParam accept db)) = db \<or>
   (\<exists>i p. post_findUnique i db = Some p \<and> status p = PENDING
        \<and> fst (snd (approve e idParam accept db)) =
            db\<lparr>posts := map (\<lambda>q. if id' q = i then q\<lparr>status := APPROVED, approvedAt := Some (now e)\<rparr> else q)
                             (posts db)\<rparr>)"
  by (auto simp: approve_def post_update_def Let_def split: option.splits)

lemma reject_database:
  "fst (snd (reject e idParam accept db)) = db \<or>
   (\<exists>i p. post_findUnique i db = Some p \<and> status p = PENDING
        \<and> fst (snd (reject e idParam accept db)) =
            db\<lparr>posts := map (\<lambda>q. if id' q = i then q\<lparr>status := REJECTED\<rparr> else q) (posts db)\<rparr>)"
  by (auto simp: reject_def post_update_def Let_def split: option.splits)

lemma confirm_database:
  "fst (snd (handlePostedConfirmation e idParam db)) = db \<or>
   (\<exists>i p. post_findUnique i db = Some p \<and> status p = APPROVED
        \<and> fst (snd (handlePostedConfirmation e idParam db)) =
            db\<lparr>posts := map (\<lambda>q. if id' q = i then q\<lparr>status := POSTED, postedAt := Some (now e)\<rparr> else q)
                             (posts db)\<rparr>)"
  by (auto simp: handlePostedConfirmation_def post_update_def Let_def split: option.splits)

lemma delete_database:
  "fst (snd (deletePost idParam db)) = db \<or>
   (\<exists>i. fst (snd (deletePost idParam db)) = db\<lparr>posts := filter (\<lambda>q. id' q \<noteq> i) (posts db)\<rparr>)"
  by (auto simp: deletePost_def post_delete_def split: option.splits)

lemma settings_upsert_database:
  "\<exists>ss. snd (settings_upsert t k v db) = db\<lparr>settings := ss\<rparr>"
  by (auto simp: settings_upsert_def Let_def split: option.splits)

lemma upsertEntries_database: "\<exists>ss. fst (upsertEntries t kvs db) = db\<lparr>settings := ss\<rparr>"
proof (induction kvs arbitrary: db)
  case Nil
  show ?case
    by (rule exI [of _ "settings db"]) simp
next
  case (Cons kv kvs)
  obtain k v where kv: "kv = (k, v)" by (cases kv)
  obtain ss where ss: "snd (settings_upsert t k (stringOf (Some v)) db) = db\<lparr>settings := ss\<rparr>"
    using settings_upsert_database by blast
  obtain ss' where "fst (upsertEntries t kvs (db\<lparr>settings := ss\<rparr>)) = db\<lparr>settings := ss, settings := ss'\<rparr>"
    using Cons [of "db\<lparr>settings := ss\<rparr>"] by blast
  then show ?case
    using Cons [of db] ss by (auto simp: kv Let_def split_beta)
qed

lemma settings_database:
  "\<exists>ss. fst (snd (putSettings e b db)) = db\<lparr>settings := ss\<rparr>"
  "\<exists>ss. fst (snd (putSetting e k v db)) = db\<lparr>settings := ss\<rparr>"
proof -
  have self: "\<exists>ss. db = db\<lparr>settings := ss\<rparr>"
    by (rule exI [of _ "settings db"]) simp
  show "\<exists>ss. fst (snd (putSettings e b db)) = db\<lparr>settings := ss\<rparr>"
    using self upsertEntries_database [of "now e" "objectEntries b" db]
    by (simp add: putSettings_def split_beta)
  show "\<exists>ss. fst (snd (putSetting e k v db)) = db\<lparr>settings := ss\<rparr>"
    using self settings_upsert_database [of "now e" k "stringOf v" db]
    by (simp add: putSetting_def split_beta)
qed

lemma readers_database:
  "fst (snd (listPosts st l off db)) = db"
  "fst (snd (getPost i db)) = db"
  "fst (snd (statsSummary db)) = db"
  "fst (snd (getSettings db)) = db"
  "fst (snd (getSetting k db)) = db"
  by (simp_all add: listPosts_def getPost_def statsSummary_def getSettings_def getSetting_def
      Let_def split: sum.splits option.splits)

subsection \<open>The invariant is kept, and every move is legal\<close>

lemma storeInvariant_step:
  assumes "storeInvariant db"
  shows "storeInvariant (databaseAfter e r db)"
proof (cases r)
  case (Submit c s u)
  have "storeInvariant (db\<lparr>posts := posts db @ [p], postSeq := postSeq db + 1\<rparr>)"
    if "id' p = postSeq db" "status p = PENDING" "approvedAt p = None" "postedAt p = None" for p
    using assms that
    by (auto simp: storeInvariant_def statusInvariant_def list_all_iff)
  then show ?thesis
    using submit_database [of e c s u db] assms by (auto simp: Submit databaseAfter_def)
next
  case (Approve i a)
  have "storeInvariant (db\<lparr>posts := map (\<lambda>q. if id' q = j then q\<lparr>status := APPROVED, approvedAt := Some (now e)\<rparr> else q)
                                   (posts db)\<rparr>)"
    if "post_findUnique j db = Some p" "status p = PENDING" for j p
    using that found_invariant [OF assms that(1)]
    by (intro update_preserves [OF assms that(1)]) (simp_all add: statusInvariant_def)
  then show ?thesis
    using approve_database [of e i a db] assms by (auto simp: Approve databaseAfter_def)
next
  case (Reject i a)
  have "storeInvariant (db\<lparr>posts := map (\<lambda>q. if id' q = j then q\<lparr>status := REJECTED\<rparr> else q) (posts db)\<rparr>)"
    if "post_findUnique j db = Some p" "status p = PENDING" for j p
    using that found_invariant [OF assms that(1)]
    by (intro update_preserves [OF assms that(1)]) (simp_all add: statusInvariant_def)
  then show ?thesis
    using reject_database [of e i a db] assms by (auto simp: Reject databaseAfter_def)
next
  case (ConfirmPosted i)
  have "storeInvariant (db\<lparr>posts := map (\<lambda>q. if id' q = j then q\<lparr>status := POSTED, postedAt := Some (now e)\<rparr> else q)
                                   (posts db)\<rparr>)"
    if "post_findUnique j db = Some p" "status p = APPROVED" for j p
    using that found_invariant [OF assms that(1)]
    by (intro update_preserves [OF assms that(1)]) (simp_all add: statusInvariant_def)
  then show ?thesis
    using confirm_database [of e i db] assms by (auto simp: ConfirmPosted databaseAfter_def)
next
  case (DeletePost i)
  have "storeInvariant (db\<lparr>posts := filter (\<lambda>q. id' q \<noteq> j) (posts db)\<rparr>)" for j
    using assms by (auto simp: storeInvariant_def list_all_iff distinct_map_filter)
  then show ?thesis
    using delete_database [of i db] assms by (auto simp: DeletePost databaseAfter_def)
next
  case (PutSettings b)
  then show ?thesis
    using settings_database(1) [of e b db] assms by (auto simp: databaseAfter_def)
next
  case (PutSetting k v)
  then show ?thesis
    using settings_database(2) [of e k v db] assms by (auto simp: databaseAfter_def)
qed (simp_all add: assms databaseAfter_def readers_database)

lemma storeInvariant_reachable: "reachable db \<Longrightarrow> storeInvariant db"
proof (induction rule: reachable.induct)
  case initial
  show ?case
    by (simp add: storeInvariant_def emptyDatabase_def)
next
  case (step db e r)
  then show ?case
    by (simp add: storeInvariant_step)
qed

lemma legalMove_step:
  assumes before: "post_findUnique i db = Some p"
      and after: "post_findUnique i (databaseAfter e r db) = Some p'"
  shows "legalMove (status p) (status p')"
proof -
  have unchanged: "databaseAfter e r db = db \<Longrightarrow> ?thesis"
    using before after by simp
  show ?thesis
  proof (cases r)
    case (Submit c s u)
    have "post_findUnique i (db\<lparr>posts := posts db @ [q], postSeq := postSeq db + 1\<rparr>) = Some p" for q
      using before by (simp add: post_findUnique_def find_append_row)
    then show ?thesis
      using submit_database [of e c s u db] unchanged after by (auto simp: Submit databaseAfter_def)
  next
    case (Approve j a)
    have "legalMove (status p) (status p')"
      if "post_findUnique k db = Some pk" "status pk = PENDING"
         "post_findUnique i (db\<lparr>posts := map (\<lambda>q. if id' q = k then q\<lparr>status := APPROVED, approvedAt := Some (now e)\<rparr> else q)
                                              (posts db)\<rparr>) = Some p'" for k pk
      by (rule update_legal [OF that(1) _ _ before that(3)]) (simp_all add: that(2))
    then show ?thesis
      using approve_database [of e j a db] unchanged after by (auto simp: Approve databaseAfter_def)
  next
    case (Reject j a)
    have "legalMove (status p) (status p')"
      if "post_findUnique k db = Some pk" "status pk = PENDING"
         "post_findUnique i (db\<lparr>posts := map (\<lambda>q. if id' q = k then q\<lparr>status := REJECTED\<rparr> else q) (posts db)\<rparr>) =
            Some p'" for k pk
      by (rule update_legal [OF that(1) _ _ before that(3)]) (simp_all add: that(2))
    then show ?thesis
      using reject_database [of e j a db] unchanged after by (auto simp: Reject databaseAfter_def)
  next
    case (ConfirmPosted j)
    have "legalMove (status p) (status p')"
      if "post_findUnique k db = Some pk" "status pk = APPROVED"
         "post_findUnique i (db\<lparr>posts := map (\<lambda>q. if id' q = k then q\<lparr>status := POSTED, postedAt := Some (now e)\<rparr> else q)
                                              (posts db)\<rparr>) = Some p'" for k pk
      by (rule update_legal [OF that(1) _ _ before that(3)]) (simp_all add: that(2))
    then show ?thesis
      using confirm_database [of e j db] unchanged after by (auto simp: ConfirmPosted databaseAfter_def)
  next
    case (DeletePost j)
    have "p' = p"
      if "post_findUnique i (db\<lparr>posts := filter (\<lambda>q. id' q \<noteq> k) (posts db)\<rparr>) = Some p'" for k
    proof (cases "i = k")
      case True
      then show ?thesis
        using found_member [OF that] by simp
    next
      case False
      then show ?thesis
        using that before find_filter_other [of i k "posts db"] by (simp add: post_findUnique_def)
    qed
    then show ?thesis
      using delete_database [of j db] unchanged after by (auto simp: DeletePost databaseAfter_def)
  next
    case (PutSettings b)
    then show ?thesis
      using settings_database(1) [of e b db] before after by (auto simp: databaseAfter_def)
  next
    case (PutSetting k v)
    then show ?thesis
      using settings_database(2) [of e k v db] before after by (auto simp: databaseAfter_def)
  qed (use before after in \<open>simp_all add: databaseAfter_def readers_database\<close>)
qed

lemma legalMove_iff:
  "legalMove s s' =
     (s' = s \<or> (s = PENDING \<and> s' = APPROVED) \<or> (s = PENDING \<and> s' = REJECTED)
      \<or> (s = APPROVED \<and> s' = POSTED))"
  by (cases s; cases s') simp_all

text \<open>
  Claim C2. In every state of the store that the service reaches from the empty
  database, by any sequence of requests in any environments: every record has
  \<open>approvedAt\<close> set exactly when its status is APPROVED or POSTED, and \<open>postedAt\<close> set
  exactly when its status is POSTED; and whatever request comes next, a record that is
  still there afterwards has kept its status or has moved along one of the edges
  PENDING to APPROVED, PENDING to REJECTED, APPROVED to POSTED.
\<close>

theorem status_invariant_and_transitions:
  assumes "reachable db"
  shows "(\<forall>p \<in> set (posts db).
            (approvedAt p \<noteq> None) = (status p = APPROVED \<or> status p = POSTED)
          \<and> (postedAt p \<noteq> None) = (status p = POSTED))
       \<and> (\<forall>e r i p p'.
            post_findUnique i db = Some p \<and> post_findUnique i (databaseAfter e r db) = Some p' \<longrightarrow>
              status p' = status p
            \<or> (status p = PENDING \<and> status p' = APPROVED)
            \<or> (status p = PENDING \<and> status p' = REJECTED)
            \<or> (status p = APPROVED \<and> status p' = POSTED))"
proof -
  have "storeInvariant db"
    using assms by (rule storeInvariant_reachable)
  then have stamps: "\<forall>p \<in> set (posts db).
            (approvedAt p \<noteq> None) = (status p = APPROVED \<or> status p = POSTED)
          \<and> (postedAt p \<noteq> None) = (status p = POSTED)"
    by (simp add: storeInvariant_def statusInvariant_def list_all_iff)
  have moves: "\<forall>e r i p p'.
            post_findUnique i db = Some p \<and> post_findUnique i (databaseAfter e r db) = Some p' \<longrightarrow>
              status p' = status p
            \<or> (status p = PENDING \<and> status p' = APPROVED)
            \<or> (status p = PENDING \<and> status p' = REJECTED)
            \<or> (status p = APPROVED \<and> status p' = POSTED)"
  proof (intro allI impI)
    fix e r i p p'
    assume "post_findUnique i db = Some p \<and> post_findUnique i (databaseAfter e r db) = Some p'"
    then have "legalMove (status p) (status p')"
      using legalMove_step [of i db p e r p'] by simp
    then show "status p' = status p
            \<or> (status p = PENDING \<and> status p' = APPROVED)
            \<or> (status p = PENDING \<and> status p' = REJECTED)
            \<or> (status p = APPROVED \<and> status p' = POSTED)"
      by (simp only: legalMove_iff)
  qed
  show ?thesis
    using stamps moves by (rule conjI)
qed

lemma sample_reachable: "reachable sampleDatabase"
proof -
  have "databaseAfter sampleEnv (Submit (Some (JStr ''Hello'')) None (Some (JStr ''https://cb.example/x'')))
          emptyDatabase = sampleDatabase"
    by (simp add: databaseAfter_def submit_def post_create_def emptyDatabase_def sampleDatabase_def
        samplePost_def sampleEnv_def Let_def)
  then show ?thesis
    using reachable.step [OF reachable.initial] by metis
qed

lemma sample_approved_database:
  "databaseAfter sampleEnv (Approve ''1'' None) sampleDatabase =
     sampleDatabase\<lparr>posts := [samplePost\<lparr>status := APPROVED, approvedAt := Some 1000\<rparr>]\<rparr>"
  by (simp add: databaseAfter_def sample_approve)

text \<open>
  The sample database, which the submission of the sample post reaches, and the
  database after the approval of that post.
\<close>

theorem status_invariant_and_transitions_witness:
  "reachable sampleDatabase
   \<and> reachable (databaseAfter sampleEnv (Approve ''1'' None) sampleDatabase)
   \<and> post_findUnique 1 sampleDatabase = Some samplePost
   \<and> post_findUnique 1 (databaseAfter sampleEnv (Approve ''1'' None) sampleDatabase) =
       Some (samplePost\<lparr>status := APPROVED, approvedAt := Some 1000\<rparr>)
   \<and> status samplePost = PENDING
   \<and> approvedAt samplePost = None
   \<and> postedAt samplePost = None
   \<and> status (samplePost\<lparr>status := APPROVED, approvedAt := Some 1000\<rparr>) = APPROVED
   \<and> approvedAt (samplePost\<lparr>status := APPROVED, approvedAt := Some 1000\<rparr>) \<noteq> None
   \<and> postedAt (samplePost\<lparr>status := APPROVED, approvedAt := Some 1000\<rparr>) = None"
proof -
  let ?after = "databaseAfter sampleEnv (Approve ''1'' None) sampleDatabase"
  let ?p' = "samplePost\<lparr>status := APPROVED, approvedAt := Some 1000\<rparr>"
  have r2: "reachable ?after"
    using sample_reachable by (rule reachable.step)
  have f2: "post_findUnique 1 ?after = Some ?p'"
    by (simp add: sample_approved_database post_findUnique_def samplePost_def)
  have m1: "samplePost \<in> set (posts sampleDatabase)"
    by (simp add: sampleDatabase_def)
  have m2: "?p' \<in> set (posts ?after)"
    by (simp add: sample_approved_database)
  note before = status_invariant_and_transitions [OF sample_reachable, THEN conjunct1, rule_format, OF m1]
  note after = status_invariant_and_transitions [OF r2, THEN conjunct1, rule_format, OF m2]
  note move = status_invariant_and_transitions [OF sample_reachable, THEN conjunct2, rule_format,
      OF conjI, OF sample_find f2]
  have pending: "status samplePost = PENDING"
    by (rule sample_pending)
  have approved: "status ?p' = APPROVED"
    using move pending by auto
  show ?thesis
    using sample_reachable r2 sample_find f2 pending approved before after by simp
qed

end
